theory Spec2Isabelle
  imports Main
begin

section \<open>JavaScript containers\<close>

text \<open>
  A JavaScript \<^verbatim>\<open>Map\<close> keeps its entries in insertion order and holds each key once.
  It is modelled as an association list: \<open>set\<close> on a key that is present replaces the
  value where the entry stands, \<open>set\<close> on a new key appends, \<open>delete\<close> removes the entry.
\<close>

type_synonym ('k, 'v) js_map = "('k \<times> 'v) list"

primrec map_set :: "'k \<Rightarrow> 'v \<Rightarrow> ('k, 'v) js_map \<Rightarrow> ('k, 'v) js_map" where
  "map_set k v [] = [(k, v)]"
| "map_set k v (p # ps) = (if fst p = k then (k, v) # ps else p # map_set k v ps)"

definition map_delete :: "'k \<Rightarrow> ('k, 'v) js_map \<Rightarrow> ('k, 'v) js_map" where
  "map_delete k m = filter (\<lambda>p. fst p \<noteq> k) m"

definition map_get :: "'k \<Rightarrow> ('k, 'v) js_map \<Rightarrow> 'v option" where
  "map_get k m = map_of m k"

definition map_has :: "'k \<Rightarrow> ('k, 'v) js_map \<Rightarrow> bool" where
  "map_has k m = (map_of m k \<noteq> None)"

definition map_size :: "('k, 'v) js_map \<Rightarrow> nat" where
  "map_size m = length m"

section \<open>Connection relay (websocket-webrtc-relay.js)\<close>

text \<open>
  A socket is known by the identity of its \<^verbatim>\<open>ws\<close> object. Times are the milliseconds of
  \<^verbatim>\<open>Date.now()\<close>; each call of the clock is an input of the handler that makes it, and so
  is the identifier that \<^verbatim>\<open>generateConnectionId\<close> draws from the clock and the random
  number generator.
\<close>

type_synonym socket = nat

record connectionData =
  conn_id :: string
  ws :: socket
  ip :: string
  createdAt :: int
  lastActivity :: int
  messages :: nat

record relay_options =
  timeout :: int
  heartbeatInterval :: int
  maxConnections :: nat

record relay =
  options :: relay_options
  connections :: "(string, connectionData) js_map"

text \<open>What the relay writes to the console, and what it asks of a socket.\<close>

datatype log_line =
    NewConnection string string
  | MessageFrom string nat
  | ErrorHandlingMessage string
  | ConnectionClosed string nat
  | ErrorOnConnection string string
  | ClosingIdle string

datatype effect =
    ConsoleLog log_line
  | ConsoleError log_line
  | WsClose socket nat string
  | WsPing socket
  | WsSendEcho socket int nat

text \<open>
  The constructor: each option falls back to its default when the caller leaves it out;
  a value the caller gives is kept as it is (the options object is spread last).
\<close>

definition WebSocketRelay_new :: "int option \<Rightarrow> int option \<Rightarrow> nat option \<Rightarrow> relay" where
  "WebSocketRelay_new tmo hb mx =
     \<lparr>options = \<lparr>timeout = (case tmo of None \<Rightarrow> 60000 | Some t \<Rightarrow> t),
                 heartbeatInterval = (case hb of None \<Rightarrow> 30000 | Some h \<Rightarrow> h),
                 maxConnections = (case mx of None \<Rightarrow> 1000 | Some n \<Rightarrow> n)\<rparr>,
      connections = []\<rparr>"

definition handleConnection ::
  "relay \<Rightarrow> socket \<Rightarrow> string \<Rightarrow> string \<Rightarrow> int \<Rightarrow> int \<Rightarrow> relay \<times> effect list" where
  "handleConnection r sock clientIp connectionId t_created t_active =
     (if map_size (connections r) \<ge> maxConnections (options r)
      then (r, [ConsoleLog (NewConnection clientIp connectionId),
                WsClose sock 1008 ''Server at max capacity''])
      else (r\<lparr>connections :=
                 map_set connectionId
                   \<lparr>conn_id = connectionId, ws = sock, ip = clientIp,
                    createdAt = t_created, lastActivity = t_active, messages = 0\<rparr>
                   (connections r)\<rparr>,
            [ConsoleLog (NewConnection clientIp connectionId)]))"

text \<open>
  \<^verbatim>\<open>handleMessage\<close>: the socket's ready state and the outcome of \<^verbatim>\<open>send\<close> (an exception
  is caught and logged) come from the socket library.
\<close>

definition handleMessage ::
  "relay \<Rightarrow> string \<Rightarrow> nat \<Rightarrow> int \<Rightarrow> int \<Rightarrow> bool \<Rightarrow> string option \<Rightarrow> relay \<times> effect list" where
  "handleMessage r connectionId len t_active t_echo is_open send_error =
     (case map_get connectionId (connections r) of
        None \<Rightarrow> (r, [])
      | Some conn \<Rightarrow>
          (r\<lparr>connections :=
               map_set connectionId
                 (conn\<lparr>lastActivity := t_active, messages := messages conn + 1\<rparr>)
                 (connections r)\<rparr>,
           ConsoleLog (MessageFrom connectionId len) #
           (if is_open
            then (case send_error of
                    None \<Rightarrow> [WsSendEcho (ws conn) t_echo len]
                  | Some e \<Rightarrow> [ConsoleError (ErrorHandlingMessage e)])
            else [])))"

definition handleClose :: "relay \<Rightarrow> string \<Rightarrow> relay \<times> effect list" where
  "handleClose r connectionId =
     (case map_get connectionId (connections r) of
        None \<Rightarrow> (r, [])
      | Some conn \<Rightarrow>
          (r\<lparr>connections := map_delete connectionId (connections r)\<rparr>,
           [ConsoleLog (ConnectionClosed connectionId (messages conn))]))"

definition handleError :: "relay \<Rightarrow> string \<Rightarrow> string \<Rightarrow> relay \<times> effect list" where
  "handleError r connectionId message =
     (r, [ConsoleError (ErrorOnConnection connectionId message)])"

text \<open>The \<^verbatim>\<open>pong\<close> listener that \<^verbatim>\<open>handleConnection\<close> installs on the socket.\<close>

definition on_pong :: "relay \<Rightarrow> string \<Rightarrow> int \<Rightarrow> relay \<times> effect list" where
  "on_pong r connectionId t_active =
     (case map_get connectionId (connections r) of
        None \<Rightarrow> (r, [])
      | Some conn \<Rightarrow>
          (r\<lparr>connections :=
               map_set connectionId (conn\<lparr>lastActivity := t_active\<rparr>) (connections r)\<rparr>, []))"

text \<open>
  One run of the timer callback of \<^verbatim>\<open>startHeartbeat\<close>. The loop walks the entries of the
  registry in order; the only entry it ever deletes is the one it stands on, so it
  visits every entry that was registered when the run began.
\<close>

fun heartbeat_loop ::
  "int \<Rightarrow> int \<Rightarrow> (string \<times> connectionData) list \<Rightarrow> (string, connectionData) js_map
     \<Rightarrow> (string, connectionData) js_map \<times> effect list" where
  "heartbeat_loop now tmo [] m = (m, [])"
| "heartbeat_loop now tmo ((i, conn) # rest) m =
     (if now - lastActivity conn > tmo
      then (case heartbeat_loop now tmo rest (map_delete i m) of
              (m', es) \<Rightarrow> (m', ConsoleLog (ClosingIdle i) # WsClose (ws conn) 1000 ''Timeout'' # es))
      else (case heartbeat_loop now tmo rest m of
              (m', es) \<Rightarrow> (m', WsPing (ws conn) # es)))"

definition heartbeat :: "relay \<Rightarrow> int \<Rightarrow> relay \<times> effect list" where
  "heartbeat r now =
     (case heartbeat_loop now (timeout (options r)) (connections r) (connections r) of
        (m, es) \<Rightarrow> (r\<lparr>connections := m\<rparr>, es))"

text \<open>The events a relay meets, and a run of the relay over a sequence of them.\<close>

datatype event =
    Upgrade socket string string int int
  | Message string nat int int bool "string option"
  | Close string
  | Error string string
  | Pong string int
  | Heartbeat int

fun step :: "relay \<Rightarrow> event \<Rightarrow> relay \<times> effect list" where
  "step r (Upgrade sock clientIp connectionId t1 t2) =
     handleConnection r sock clientIp connectionId t1 t2"
| "step r (Message connectionId len t1 t2 is_open send_error) =
     handleMessage r connectionId len t1 t2 is_open send_error"
| "step r (Close connectionId) = handleClose r connectionId"
| "step r (Error connectionId message) = handleError r connectionId message"
| "step r (Pong connectionId t) = on_pong r connectionId t"
| "step r (Heartbeat now) = heartbeat r now"

fun run :: "relay \<Rightarrow> event list \<Rightarrow> relay \<times> effect list" where
  "run r [] = (r, [])"
| "run r (e # es) =
     (case step r e of (r', out) \<Rightarrow> (case run r' es of (r'', out') \<Rightarrow> (r'', out @ out')))"

text \<open>
  \<^verbatim>\<open>getStats\<close> computes with JavaScript numbers. The creation times and the clock are
  integers; \<^verbatim>\<open>Math.min\<close> of no arguments is \<open>+Infinity\<close>, and a finite number minus
  \<open>+Infinity\<close> is \<open>-Infinity\<close>.
\<close>

datatype js_number = NegInfinity | Finite int | PosInfinity

fun js_min :: "js_number \<Rightarrow> js_number \<Rightarrow> js_number" where
  "js_min NegInfinity _ = NegInfinity"
| "js_min _ NegInfinity = NegInfinity"
| "js_min PosInfinity y = y"
| "js_min x PosInfinity = x"
| "js_min (Finite a) (Finite b) = Finite (min a b)"

definition Math_min :: "js_number list \<Rightarrow> js_number" where
  "Math_min xs = foldl js_min PosInfinity xs"

text \<open>A finite number minus a number.\<close>

fun js_minus :: "int \<Rightarrow> js_number \<Rightarrow> js_number" where
  "js_minus a (Finite b) = Finite (a - b)"
| "js_minus a PosInfinity = NegInfinity"
| "js_minus a NegInfinity = PosInfinity"

record relay_stats =
  activeConnections :: nat
  totalMessages :: nat
  oldestConnectionAge :: js_number
  maxCapacity :: nat

definition getStats :: "relay \<Rightarrow> int \<Rightarrow> relay_stats" where
  "getStats r now =
     (let oldestConnection = Math_min (map (\<lambda>c. Finite (createdAt (snd c))) (connections r));
          total = foldl (\<lambda>acc c. acc + messages (snd c)) 0 (connections r)
      in \<lparr>activeConnections = map_size (connections r),
          totalMessages = total,
          oldestConnectionAge = js_minus now oldestConnection,
          maxCapacity = maxConnections (options r)\<rparr>)"

text \<open>
  The registry is within capacity and holds each identifier once. A connection is idle
  at a sweep when the time since its last activity exceeds the timeout.
\<close>

definition registry_ok :: "relay \<Rightarrow> bool" where
  "registry_ok r \<longleftrightarrow>
     map_size (connections r) \<le> maxConnections (options r) \<and> distinct (map fst (connections r))"






section \<open>Strings\<close>

text \<open>
  Strings are the UTF-8 bytes of their text. \<^verbatim>\<open>split\<close> by a one-character separator
  always gives at least one piece: it is returned as the first piece and the list of the
  others.
\<close>

fun split_on :: "char \<Rightarrow> string \<Rightarrow> string \<times> string list" where
  "split_on c [] = ([], [])"
| "split_on c (x # xs) =
     (case split_on c xs of
        (piece, pieces) \<Rightarrow> if x = c then ([], piece # pieces) else (x # piece, pieces))"

text \<open>
  \<^verbatim>\<open>trim\<close> strips white space and line terminators at both ends: the code points
  U+0009 to U+000D, U+0020, U+00A0, U+1680, U+2000 to U+200A, U+2028, U+2029, U+202F,
  U+205F, U+3000 and U+FEFF, each listed here by its UTF-8 bytes (U+00A0 is the two bytes
  \<open>C2 A0\<close>). None of these byte sequences begins or ends another, so at either end of
  a text at most one of them matches.
\<close>

definition white_space :: "string list" where
  "white_space =
     [[CHR 0x09], [CHR 0x0A], [CHR 0x0B], [CHR 0x0C], [CHR 0x0D], [CHR 0x20],
      [CHR 0xC2, CHR 0xA0],
      [CHR 0xE1, CHR 0x9A, CHR 0x80],
      [CHR 0xE2, CHR 0x80, CHR 0x80], [CHR 0xE2, CHR 0x80, CHR 0x81],
      [CHR 0xE2, CHR 0x80, CHR 0x82], [CHR 0xE2, CHR 0x80, CHR 0x83],
      [CHR 0xE2, CHR 0x80, CHR 0x84], [CHR 0xE2, CHR 0x80, CHR 0x85],
      [CHR 0xE2, CHR 0x80, CHR 0x86], [CHR 0xE2, CHR 0x80, CHR 0x87],
      [CHR 0xE2, CHR 0x80, CHR 0x88], [CHR 0xE2, CHR 0x80, CHR 0x89],
      [CHR 0xE2, CHR 0x80, CHR 0x8A],
      [CHR 0xE2, CHR 0x80, CHR 0xA8], [CHR 0xE2, CHR 0x80, CHR 0xA9],
      [CHR 0xE2, CHR 0x80, CHR 0xAF],
      [CHR 0xE2, CHR 0x81, CHR 0x9F],
      [CHR 0xE3, CHR 0x80, CHR 0x80],
      [CHR 0xEF, CHR 0xBB, CHR 0xBF]]"

text \<open>
  \<open>strip seqs s\<close> removes from the front of \<open>s\<close>, one after the other, the byte sequences
  of \<open>seqs\<close> that it starts with. \<^verbatim>\<open>trim\<close> strips the front, then the end (the front of the
  reversed text, against the reversed sequences).
\<close>

fun strip :: "string list \<Rightarrow> string \<Rightarrow> string" where
  "strip seqs [] = []"
| "strip seqs (c # cs) =
     (case find (\<lambda>w. w \<noteq> [] \<and> take (length w) (c # cs) = w) seqs of
        None \<Rightarrow> c # cs
      | Some w \<Rightarrow> strip seqs (drop (length w - 1) cs))"

definition trimStart :: "string \<Rightarrow> string" where
  "trimStart s = strip white_space s"

definition trimEnd :: "string \<Rightarrow> string" where
  "trimEnd s = rev (strip (map rev white_space) (rev s))"

definition trim :: "string \<Rightarrow> string" where
  "trim s = trimEnd (trimStart s)"

definition startsWith :: "string \<Rightarrow> string \<Rightarrow> bool" where
  "startsWith s p \<longleftrightarrow> take (length p) s = p"

section \<open>Session and cookie relay (session-cookie-middleware.js)\<close>

text \<open>
  The values that reach the relay: a string, or \<^verbatim>\<open>undefined\<close> (a header that is absent,
  a cookie with no \<open>=\<close>). An attribute holds a string or a boolean.
\<close>

datatype js_value = Undefined | Str string

datatype attr_value = AttrStr string | AttrBool bool

datatype js_error = TypeError

text \<open>
  A plain object used as a dictionary is modelled by its own properties. Writing the
  property \<^verbatim>\<open>__proto__\<close> of such an object, by assignment or through \<^verbatim>\<open>Object.assign\<close>,
  calls the setter inherited from \<^verbatim>\<open>Object.prototype\<close>, which ignores a value that is
  neither an object nor null: no own property is made. Every value written below is a
  string, a boolean or \<^verbatim>\<open>undefined\<close>.
\<close>

type_synonym 'v js_object = "(string, 'v) js_map"

definition obj_set :: "string \<Rightarrow> 'v \<Rightarrow> 'v js_object \<Rightarrow> 'v js_object" where
  "obj_set k v obj = (if k = ''__proto__'' then obj else map_set k v obj)"

definition Object_assign :: "'v js_object \<Rightarrow> (string \<times> 'v) list \<Rightarrow> 'v js_object" where
  "Object_assign target source = foldl (\<lambda>obj p. obj_set (fst p) (snd p) obj) target source"

record parsed_cookie =
  name :: string
  val :: js_value
  attributes :: "attr_value js_object"

record cookie_options =
  stripSecure :: bool
  stripHttpOnly :: bool
  cookieWhitelist :: "string list"
  cookieBlacklist :: "string list"

record cookie_relay =
  relay_options :: cookie_options
  cookieStore :: "(string, js_value js_object) js_map"

datatype cookie_log = StoredCookie string string | ErrorRelayingCookie js_error

definition storeCookies ::
  "cookie_relay \<Rightarrow> string \<Rightarrow> (string \<times> js_value) list \<Rightarrow> cookie_relay" where
  "storeCookies m sessionId cookies =
     (let sessionCookies = (case map_get sessionId (cookieStore m) of None \<Rightarrow> [] | Some jar \<Rightarrow> jar)
      in m\<lparr>cookieStore := map_set sessionId (Object_assign sessionCookies cookies) (cookieStore m)\<rparr>)"

text \<open>
  One turn of the loop over the attribute parts of \<^verbatim>\<open>parseCookieString\<close>. The platform's
  \<^verbatim>\<open>toLowerCase\<close> is a parameter of the parser.
\<close>

definition parse_attribute ::
  "(string \<Rightarrow> string) \<Rightarrow> attr_value js_object \<Rightarrow> string \<Rightarrow> attr_value js_object" where
  "parse_attribute toLowerCase attrs part =
     (case split_on CHR ''='' part of
        (n, rest) \<Rightarrow>
          (let attrName = trim n;
               attrValue = (case rest of [] \<Rightarrow> None | v # _ \<Rightarrow> Some (trim v))
           in obj_set (toLowerCase attrName)
                (case attrValue of
                   None \<Rightarrow> AttrBool True
                 | Some v \<Rightarrow> if v = [] then AttrBool True else AttrStr v)
                attrs))"

definition parseCookieString :: "(string \<Rightarrow> string) \<Rightarrow> js_value \<Rightarrow> js_error + parsed_cookie" where
  "parseCookieString toLowerCase cookieString =
     (case cookieString of
        Undefined \<Rightarrow> Inl TypeError
      | Str s \<Rightarrow>
          (case split_on CHR '';'' s of
             (first, others) \<Rightarrow>
               (case split_on CHR ''='' (trim first) of
                  (n, rest) \<Rightarrow>
                    Inr \<lparr>name = n,
                         val = (case rest of [] \<Rightarrow> Undefined | v # _ \<Rightarrow> Str v),
                         attributes = foldl (parse_attribute toLowerCase) [] (map trim others)\<rparr>)))"

text \<open>The two assignments of \<^verbatim>\<open>relayCookie\<close> under "Apply option overrides".\<close>

definition apply_overrides :: "cookie_options \<Rightarrow> parsed_cookie \<Rightarrow> parsed_cookie" where
  "apply_overrides opts parsed =
     (let parsed1 =
            (if stripSecure opts
             then parsed\<lparr>attributes := obj_set ''secure'' (AttrBool False) (attributes parsed)\<rparr>
             else parsed)
      in if stripHttpOnly opts
         then parsed1\<lparr>attributes := obj_set ''httpOnly'' (AttrBool False) (attributes parsed1)\<rparr>
         else parsed1)"

definition relayCookie ::
  "(string \<Rightarrow> string) \<Rightarrow> cookie_relay \<Rightarrow> string \<Rightarrow> js_value \<Rightarrow> cookie_relay \<times> cookie_log list" where
  "relayCookie toLowerCase m sessionId cookieString =
     (case parseCookieString toLowerCase cookieString of
        Inl e \<Rightarrow> (m, [ErrorRelayingCookie e])
      | Inr parsed \<Rightarrow>
          if cookieWhitelist (relay_options m) \<noteq> [] \<and>
             name parsed \<notin> set (cookieWhitelist (relay_options m))
          then (m, [])
          else if name parsed \<in> set (cookieBlacklist (relay_options m))
          then (m, [])
          else
            (let parsed' = apply_overrides (relay_options m) parsed
             in (storeCookies m sessionId [(name parsed', val parsed')],
                 [StoredCookie (name parsed') sessionId])))"

definition getCookies :: "cookie_relay \<Rightarrow> string \<Rightarrow> js_value js_object" where
  "getCookies m sessionId = (case map_get sessionId (cookieStore m) of None \<Rightarrow> [] | Some jar \<Rightarrow> jar)"

definition clearCookies :: "cookie_relay \<Rightarrow> string \<Rightarrow> cookie_relay" where
  "clearCookies m sessionId = m\<lparr>cookieStore := map_delete sessionId (cookieStore m)\<rparr>"

text \<open>The policy of the relay as the specification words it.\<close>

definition policy_admits :: "cookie_options \<Rightarrow> string \<Rightarrow> bool" where
  "policy_admits opts n \<longleftrightarrow>
     (cookieWhitelist opts = [] \<or> n \<in> set (cookieWhitelist opts)) \<and> n \<notin> set (cookieBlacklist opts)"

section \<open>URL resolver (http-rewriter.js)\<close>

text \<open>
  \<^verbatim>\<open>encodeURIComponent\<close> leaves the letters, the digits and \<^verbatim>\<open>- _ . ! ~ * ' ( )\<close> as they
  are and writes every other byte of the UTF-8 text as \<open>%\<close> and two upper-case hex digits.
\<close>

definition unreserved :: "char \<Rightarrow> bool" where
  "unreserved c \<longleftrightarrow>
     (let n = of_char c :: nat
      in (65 \<le> n \<and> n \<le> 90) \<or> (97 \<le> n \<and> n \<le> 122) \<or> (48 \<le> n \<and> n \<le> 57) \<or>
         c \<in> {CHR ''-'', CHR ''_'', CHR ''.'', CHR ''!'', CHR ''~'', CHR ''*'', CHR 0x27,
               CHR ''('', CHR '')''})"

definition hex_digit :: "nat \<Rightarrow> char" where
  "hex_digit n = ''0123456789ABCDEF'' ! n"

definition encode_byte :: "char \<Rightarrow> string" where
  "encode_byte c =
     (if unreserved c then [c]
      else [CHR ''%'', hex_digit ((of_char c :: nat) div 16), hex_digit ((of_char c :: nat) mod 16)])"

definition encodeURIComponent :: "string \<Rightarrow> string" where
  "encodeURIComponent s = concat (map encode_byte s)"

text \<open>
  The platform's \<^verbatim>\<open>URL\<close> class is a parameter of the resolver: \<open>new_URL input base\<close> is the
  parsed URL, or \<open>None\<close> where the constructor throws.
\<close>

record url =
  protocol :: string
  host :: string
  href :: string

type_synonym url_class = "string \<Rightarrow> string option \<Rightarrow> url option"

definition proxy_link :: "string \<Rightarrow> string \<Rightarrow> string" where
  "proxy_link proxyBaseUrl absoluteUrl = proxyBaseUrl @ ''/proxy?url='' @ encodeURIComponent absoluteUrl"

definition rewriteUrl :: "url_class \<Rightarrow> string \<Rightarrow> string \<Rightarrow> string \<Rightarrow> js_error + string" where
  "rewriteUrl new_URL u proxyBaseUrl targetUrl =
     (if u = [] \<or> u = ''#'' \<or> startsWith u ''javascript:'' then Inr u
      else if startsWith u proxyBaseUrl then Inr u
      else if startsWith u ''http://'' \<or> startsWith u ''https://''
        then Inr (proxy_link proxyBaseUrl u)
      else if startsWith u ''//'' then Inr (proxy_link proxyBaseUrl (''https:'' @ u))
      else if startsWith u ''/''
        then (case new_URL targetUrl None of
                None \<Rightarrow> Inl TypeError
              | Some targetBase \<Rightarrow>
                  Inr (proxy_link proxyBaseUrl (protocol targetBase @ ''//'' @ host targetBase @ u)))
      else if \<not> startsWith u ''#''
        then (case new_URL targetUrl None of
                None \<Rightarrow> Inl TypeError
              | Some targetBase \<Rightarrow>
                  (case new_URL u (Some targetUrl) of
                     None \<Rightarrow> Inl TypeError
                   | Some absolute \<Rightarrow> Inr (proxy_link proxyBaseUrl (href absolute))))
      else Inr u)"

section \<open>Proxy dispatcher: the handlers of \<^verbatim>\<open>/api/*\<close>\<close>

text \<open>
  The upstream call is a parameter of the handlers: it answers with a response, or rejects
  with an error that carries a message and, when the upstream answered at all, its
  response. The clock's ISO text and the query-string encoder are inputs as well.
\<close>

record 'd upstream_response =
  status :: nat
  data :: 'd

record 'd upstream_error =
  message :: string
  response :: "'d upstream_response option"

datatype 'd json_body = Json 'd | JsonObject "(string \<times> string) list"

record 'd client_response =
  res_status :: nat
  res_json :: "'d json_body"

record 'b api_request =
  path :: string
  query :: "(string \<times> string) list"
  headers :: "(string \<times> string) list"
  req_ip :: string
  originalUrl :: string
  body :: 'b

definition forwarded_headers :: "'b api_request \<Rightarrow> (string \<times> string) list" where
  "forwarded_headers req =
     map_set ''X-Original-URL'' (originalUrl req)
       (map_set ''X-Forwarded-For'' (req_ip req) (headers req))"

text \<open>The \<^verbatim>\<open>catch\<close> block that the two handlers share word for word.\<close>

definition proxy_failure :: "'d upstream_error \<Rightarrow> string \<Rightarrow> 'd client_response" where
  "proxy_failure error timestamp =
     \<lparr>res_status =
        (case response error of
           None \<Rightarrow> 500
         | Some r \<Rightarrow> if status r = 0 then 500 else status r),
      res_json = JsonObject [(''error'', ''Proxy request failed''),
                             (''message'', message error),
                             (''timestamp'', timestamp)]\<rparr>"

definition api_get ::
  "string \<Rightarrow> (string \<Rightarrow> (string \<times> string) list \<Rightarrow> 'd upstream_error + 'd upstream_response)
     \<Rightarrow> ((string \<times> string) list \<Rightarrow> string) \<Rightarrow> 'b api_request \<Rightarrow> string \<Rightarrow> 'd client_response" where
  "api_get TARGET_URL axios_get query_text req timestamp =
     (let target = TARGET_URL @ ''/'' @ path req;
          queryString = (if query req \<noteq> [] then ''?'' @ query_text (query req) else [])
      in case axios_get (target @ queryString) (forwarded_headers req) of
           Inr r \<Rightarrow> \<lparr>res_status = status r, res_json = Json (data r)\<rparr>
         | Inl error \<Rightarrow> proxy_failure error timestamp)"

definition api_post ::
  "string \<Rightarrow> (string \<Rightarrow> 'b \<Rightarrow> (string \<times> string) list \<Rightarrow> 'd upstream_error + 'd upstream_response)
     \<Rightarrow> 'b api_request \<Rightarrow> string \<Rightarrow> 'd client_response" where
  "api_post TARGET_URL axios_post req timestamp =
     (let target = TARGET_URL @ ''/'' @ path req
      in case axios_post target (body req) (forwarded_headers req) of
           Inr r \<Rightarrow> \<lparr>res_status = status r, res_json = Json (data r)\<rparr>
         | Inl error \<Rightarrow> proxy_failure error timestamp)"

section \<open>A URL class for the examples\<close>

text \<open>
  What the platform's \<^verbatim>\<open>URL\<close> class answers for the target \<^verbatim>\<open>https://api.example.com\<close>
  with no base, and for the inputs \<^verbatim>\<open>/login\<close>, \<^verbatim>\<open>img/logo.png\<close> and \<^verbatim>\<open>JavaScript:alert(1)\<close>
  against that base (the scheme of a URL is lower-cased when it is parsed); every other
  call is taken to throw.
\<close>

definition example_URL :: url_class where
  "example_URL input base =
     (if input = ''https://api.example.com'' \<and> base = None
        then Some \<lparr>protocol = ''https:'', host = ''api.example.com'',
                    href = ''https://api.example.com/''\<rparr>
      else if input = ''/login'' \<and> base = Some ''https://api.example.com''
        then Some \<lparr>protocol = ''https:'', host = ''api.example.com'',
                    href = ''https://api.example.com/login''\<rparr>
      else if input = ''img/logo.png'' \<and> base = Some ''https://api.example.com''
        then Some \<lparr>protocol = ''https:'', host = ''api.example.com'',
                    href = ''https://api.example.com/img/logo.png''\<rparr>
      else if input = ''JavaScript:alert(1)'' \<and> base = Some ''https://api.example.com''
        then Some \<lparr>protocol = ''javascript:'', host = [],
                    href = ''javascript:alert(1)''\<rparr>
      else None)"

section \<open>A request and two upstream failures for the examples\<close>

text \<open>
  A request for \<^verbatim>\<open>/api/users\<close>; an upstream that answers 404; an upstream that cannot be
  reached, whose error carries no response.
\<close>

definition users_request :: "string api_request" where
  "users_request =
     \<lparr>path = ''users'', query = [], headers = [(''accept'', ''application/json'')],
      req_ip = ''10.0.0.1'', originalUrl = ''/api/users'', body = ''{}''\<rparr>"

definition not_found :: "string upstream_error" where
  "not_found =
     \<lparr>message = ''Request failed with status code 404'',
      response = Some \<lparr>status = 404, data = ''{}''\<rparr>\<rparr>"

definition unreachable :: "string upstream_error" where
  "unreachable = \<lparr>message = ''connect ECONNREFUSED'', response = None\<rparr>"

section \<open>Lower case on ASCII text, for the examples\<close>

text \<open>
  On text in the ASCII range \<^verbatim>\<open>toLowerCase\<close> maps the letters \<open>A\<close> to \<open>Z\<close> and leaves
  every other character alone. The examples call it on such text only.
\<close>

definition lower_char :: "char \<Rightarrow> char" where
  "lower_char c =
     (case map_of (zip ''ABCDEFGHIJKLMNOPQRSTUVWXYZ'' ''abcdefghijklmnopqrstuvwxyz'') c of
        None \<Rightarrow> c
      | Some l \<Rightarrow> l)"

definition toLowerCase_ascii :: "string \<Rightarrow> string" where
  "toLowerCase_ascii s = map lower_char s"

section \<open>Cookie relays for the examples\<close>

text \<open>
  Three configurations with an empty store: no policy and no override; both overrides
  switched on; and an allow-list and a deny-list.
\<close>

definition open_relay :: cookie_relay where
  "open_relay =
     \<lparr>relay_options = \<lparr>stripSecure = False, stripHttpOnly = False,
                       cookieWhitelist = [], cookieBlacklist = []\<rparr>,
      cookieStore = []\<rparr>"

definition stripping_relay :: cookie_relay where
  "stripping_relay =
     \<lparr>relay_options = \<lparr>stripSecure = True, stripHttpOnly = True,
                       cookieWhitelist = [], cookieBlacklist = []\<rparr>,
      cookieStore = []\<rparr>"

definition listed_relay :: "string list \<Rightarrow> string list \<Rightarrow> cookie_relay" where
  "listed_relay allow deny =
     \<lparr>relay_options = \<lparr>stripSecure = False, stripHttpOnly = False,
                       cookieWhitelist = allow, cookieBlacklist = deny\<rparr>,
      cookieStore = []\<rparr>"

section \<open>A relay with two connections\<close>

text \<open>
  A relay built with the default options that has accepted two upgrades; the first
  connection answered a probe at 50000 ms, the second has been silent since 10 ms.
\<close>

definition two_connections :: relay where
  "two_connections =
     fst (run (WebSocketRelay_new None None None)
            [Upgrade 7 ''10.0.0.1'' ''ws-1'' 0 0, Upgrade 8 ''10.0.0.2'' ''ws-2'' 10 10,
             Pong ''ws-1'' 50000])"

section \<open>Properties of the connection relay\<close>

subsection \<open>The keyed store\<close>

lemma map_set_length_le: "length (map_set k v m) \<le> Suc (length m)"
  by (induction m) auto

lemma map_set_length_has: "map_of m k \<noteq> None \<Longrightarrow> length (map_set k v m) = length m"
  by (induction m) auto

lemma map_set_keys: "fst ` set (map_set k v m) = insert k (fst ` set m)"
  by (induction m) auto

lemma map_set_distinct: "distinct (map fst m) \<Longrightarrow> distinct (map fst (map_set k v m))"
  by (induction m) (auto simp: map_set_keys)

lemma map_of_map_set: "map_of (map_set k v m) = (map_of m)(k \<mapsto> v)"
  by (induction m) auto

lemma map_delete_length_le: "length (map_delete k m) \<le> length m"
  by (simp add: map_delete_def)

lemma map_delete_distinct: "distinct (map fst m) \<Longrightarrow> distinct (map fst (map_delete k m))"
  by (simp add: map_delete_def distinct_map_filter)

lemma map_delete_length_has:
  "distinct (map fst m) \<Longrightarrow> map_of m k \<noteq> None \<Longrightarrow> Suc (length (map_delete k m)) = length m"
proof (induction m)
  case Nil
  then show ?case by simp
next
  case (Cons p m)
  show ?case
  proof (cases "fst p = k")
    case True
    with Cons.prems have "k \<notin> fst ` set m" by auto
    then have "filter (\<lambda>q. fst q \<noteq> k) m = m" by (auto simp: filter_id_conv)
    with True show ?thesis by (simp add: map_delete_def)
  next
    case False
    with Cons show ?thesis by (cases p) (auto simp: map_delete_def)
  qed
qed

lemma map_of_map_delete: "map_of (map_delete k m) = (map_of m)(k := None)"
  by (induction m) (auto simp: map_delete_def)

lemma fst_heartbeat_loop_Cons:
  "fst (heartbeat_loop now tmo ((i, conn) # rest) m) =
     (if now - lastActivity conn > tmo then fst (heartbeat_loop now tmo rest (map_delete i m))
      else fst (heartbeat_loop now tmo rest m))"
  by (simp split: prod.splits)


lemma heartbeat_loop_length:
  "length (fst (heartbeat_loop now tmo es m)) \<le> length m"
proof (induction es arbitrary: m)
  case Nil
  show ?case by simp
next
  case (Cons e es)
  obtain i conn where e: "e = (i, conn)" by (cases e)
  have "length (fst (heartbeat_loop now tmo es (map_delete i m))) \<le> length m"
    using Cons.IH [of "map_delete i m"] map_delete_length_le [of i m] by linarith
  with Cons.IH [of m] show ?case
    by (simp add: e fst_heartbeat_loop_Cons del: heartbeat_loop.simps)
qed

lemma heartbeat_loop_distinct:
  "distinct (map fst m) \<Longrightarrow> distinct (map fst (fst (heartbeat_loop now tmo es m)))"
proof (induction es arbitrary: m)
  case Nil
  then show ?case by simp
next
  case (Cons e es)
  obtain i conn where e: "e = (i, conn)" by (cases e)
  from Cons.prems have "distinct (map fst (map_delete i m))" by (rule map_delete_distinct)
  with Cons show ?case
    by (simp add: e fst_heartbeat_loop_Cons del: heartbeat_loop.simps)
qed


lemma step_options: "options (fst (step r e)) = options r"
  by (cases e)
     (auto simp: handleConnection_def handleMessage_def handleClose_def handleError_def
        on_pong_def heartbeat_def split: option.splits prod.splits)

lemma step_registry_ok: "registry_ok r \<Longrightarrow> registry_ok (fst (step r e))"
proof (cases e)
  case (Upgrade sock clientIp connectionId t1 t2)
  assume "registry_ok r"
  then show ?thesis
    using map_set_length_le [of connectionId
        "\<lparr>conn_id = connectionId, ws = sock, ip = clientIp, createdAt = t1,
          lastActivity = t2, messages = 0\<rparr>" "connections r"]
    by (auto simp: Upgrade registry_ok_def handleConnection_def map_size_def map_set_distinct)
next
  case (Message connectionId len t1 t2 is_open send_error)
  assume "registry_ok r"
  then show ?thesis
    by (auto simp: Message registry_ok_def handleMessage_def map_size_def map_get_def
          map_set_distinct map_set_length_has split: option.splits)
next
  case (Close connectionId)
  assume "registry_ok r"
  then show ?thesis
    using map_delete_length_le [of connectionId "connections r"]
    by (auto simp: Close registry_ok_def handleClose_def map_size_def map_delete_distinct
          split: option.splits)
next
  case (Error connectionId message)
  assume "registry_ok r"
  then show ?thesis by (simp add: Error handleError_def)
next
  case (Pong connectionId t)
  assume "registry_ok r"
  then show ?thesis
    by (auto simp: Pong registry_ok_def on_pong_def map_size_def map_get_def
          map_set_distinct map_set_length_has split: option.splits)
next
  case (Heartbeat now)
  assume "registry_ok r"
  then show ?thesis
    using heartbeat_loop_length [of now "timeout (options r)" "connections r" "connections r"]
      heartbeat_loop_distinct [of "connections r" now "timeout (options r)" "connections r"]
    by (auto simp: Heartbeat registry_ok_def heartbeat_def map_size_def split: prod.splits)
qed

lemma fst_run_Cons: "fst (run r (e # evs)) = fst (run (fst (step r e)) evs)"
  by (simp split: prod.splits)

lemma run_registry_ok: "registry_ok r \<Longrightarrow> registry_ok (fst (run r evs))"
proof (induction evs arbitrary: r)
  case Nil
  then show ?case by simp
next
  case (Cons e evs)
  from Cons.prems have "registry_ok (fst (step r e))" by (rule step_registry_ok)
  then have "registry_ok (fst (run (fst (step r e)) evs))" by (rule Cons.IH)
  then show ?case by (simp only: fst_run_Cons)
qed

lemma run_options: "options (fst (run r evs)) = options r"
proof (induction evs arbitrary: r)
  case Nil
  show ?case by simp
next
  case (Cons e evs)
  have "options (fst (run (fst (step r e)) evs)) = options (fst (step r e))" by (rule Cons.IH)
  then show ?case by (simp only: fst_run_Cons step_options)
qed

lemma new_registry_ok: "registry_ok (WebSocketRelay_new tmo hb mx)"
  by (simp add: registry_ok_def WebSocketRelay_new_def map_size_def)

subsection \<open>Capacity\<close>

lemma handleClose_registered:
  assumes "registry_ok r" and "map_has c (connections r)"
  shows "Suc (map_size (connections (fst (handleClose r c)))) = map_size (connections r)"
    and "options (fst (handleClose r c)) = options r"
    and "snd (handleClose r c) \<noteq> []"
  using assms map_delete_length_has [of "connections r" c]
  by (auto simp: handleClose_def registry_ok_def map_has_def map_get_def map_size_def
        split: option.splits)

lemma handleConnection_accepts:
  assumes "map_size (connections r) < maxConnections (options r)"
  shows "handleConnection r sock clientIp cid t1 t2 =
           (r\<lparr>connections :=
                map_set cid \<lparr>conn_id = cid, ws = sock, ip = clientIp, createdAt = t1,
                             lastActivity = t2, messages = 0\<rparr> (connections r)\<rparr>,
            [ConsoleLog (NewConnection clientIp cid)])"
  using assms by (simp add: handleConnection_def)

text \<open>
  Claim C1. Starting from an empty registry with configured maximum \<open>N\<close>, after any
  sequence of upgrades, messages, closes, errors, pongs and heartbeat sweeps the registry
  holds at most \<open>N\<close> connections. An upgrade that arrives while \<open>N\<close> connections are
  registered is answered by closing the socket with code 1008 and leaves the relay as it
  was. After a registered connection closes, exactly one slot is free: the next upgrade
  is accepted without a close, and its connection is registered.
\<close>

theorem registry_within_capacity:
  "(let r = fst (run (WebSocketRelay_new tmo hb mx) evs);
        N = (case mx of None \<Rightarrow> 1000 | Some n \<Rightarrow> n)
    in maxConnections (options r) = N \<and>
       map_size (connections r) \<le> N \<and>
       (map_size (connections r) = N \<longrightarrow>
          handleConnection r sock clientIp cid t1 t2 =
            (r, [ConsoleLog (NewConnection clientIp cid),
                 WsClose sock 1008 ''Server at max capacity''])) \<and>
       (map_has c (connections r) \<longrightarrow>
          (let r1 = fst (handleClose r c);
               r2 = fst (handleConnection r1 sock clientIp cid t1 t2)
           in Suc (map_size (connections r1)) = map_size (connections r) \<and>
              snd (handleConnection r1 sock clientIp cid t1 t2) =
                [ConsoleLog (NewConnection clientIp cid)] \<and>
              map_get cid (connections r2) =
                Some \<lparr>conn_id = cid, ws = sock, ip = clientIp, createdAt = t1,
                      lastActivity = t2, messages = 0\<rparr> \<and>
              map_size (connections r2) \<le> N)))"
proof -
  define r where "r = fst (run (WebSocketRelay_new tmo hb mx) evs)"
  define N where "N = (case mx of None \<Rightarrow> 1000 | Some n \<Rightarrow> n)"
  have opts: "maxConnections (options r) = N"
    by (simp add: r_def N_def run_options WebSocketRelay_new_def)
  have ok: "registry_ok r"
    unfolding r_def by (rule run_registry_ok) (rule new_registry_ok)
  then have size: "map_size (connections r) \<le> N"
    by (simp add: registry_ok_def opts)
  have full: "handleConnection r sock clientIp cid t1 t2 =
      (r, [ConsoleLog (NewConnection clientIp cid), WsClose sock 1008 ''Server at max capacity''])"
    if "map_size (connections r) = N"
    using that by (simp add: handleConnection_def opts)
  have freed: "Suc (map_size (connections (fst (handleClose r c)))) = map_size (connections r) \<and>
      snd (handleConnection (fst (handleClose r c)) sock clientIp cid t1 t2) =
        [ConsoleLog (NewConnection clientIp cid)] \<and>
      map_get cid (connections (fst (handleConnection (fst (handleClose r c)) sock clientIp cid t1 t2))) =
        Some \<lparr>conn_id = cid, ws = sock, ip = clientIp, createdAt = t1,
              lastActivity = t2, messages = 0\<rparr> \<and>
      map_size (connections (fst (handleConnection (fst (handleClose r c)) sock clientIp cid t1 t2))) \<le> N"
    if reg: "map_has c (connections r)"
  proof -
    define r1 where "r1 = fst (handleClose r c)"
    have one: "Suc (map_size (connections r1)) = map_size (connections r)"
      and o1: "options r1 = options r"
      unfolding r1_def using ok reg by (rule handleClose_registered)+
    from one size have room: "map_size (connections r1) < maxConnections (options r1)"
      by (simp add: o1 opts)
    note acc = handleConnection_accepts [OF room, of sock clientIp cid t1 t2]
    have "map_size (connections (fst (handleConnection r1 sock clientIp cid t1 t2))) \<le> N"
      using room map_set_length_le [of cid
          "\<lparr>conn_id = cid, ws = sock, ip = clientIp, createdAt = t1,
            lastActivity = t2, messages = 0\<rparr>" "connections r1"]
      by (simp add: acc map_size_def o1 opts)
    with one show ?thesis
      by (simp add: acc map_get_def map_of_map_set flip: r1_def)
  qed
  from opts size full freed show ?thesis
    by (simp add: Let_def flip: r_def N_def)
qed

theorem registry_within_capacity_witness:
  "(let r = fst (run (WebSocketRelay_new None None (Some 1))
                   [Upgrade 7 ''10.0.0.1'' ''ws-1'' 100 100, Upgrade 8 ''10.0.0.2'' ''ws-2'' 101 101])
    in map_size (connections r) = 1 \<and> map_has ''ws-1'' (connections r) \<and>
       handleConnection r 9 ''10.0.0.3'' ''ws-3'' 102 102 =
         (r, [ConsoleLog (NewConnection ''10.0.0.3'' ''ws-3''),
              WsClose 9 1008 ''Server at max capacity'']) \<and>
       map_get ''ws-3''
         (connections (fst (handleConnection (fst (handleClose r ''ws-1'')) 9 ''10.0.0.3'' ''ws-3'' 102 102))) =
         Some \<lparr>conn_id = ''ws-3'', ws = 9, ip = ''10.0.0.3'', createdAt = 102,
               lastActivity = 102, messages = 0\<rparr>)"
  using registry_within_capacity [of None None "Some 1"
      "[Upgrade 7 ''10.0.0.1'' ''ws-1'' 100 100, Upgrade 8 ''10.0.0.2'' ''ws-2'' 101 101]"
      9 "''10.0.0.3''" "''ws-3''" 102 102 "''ws-1''"]
  by (simp add: WebSocketRelay_new_def handleConnection_def handleClose_def map_size_def
        map_has_def map_get_def map_delete_def Let_def)







subsection \<open>The heartbeat sweep\<close>


subsection \<open>The sweep, the error handler and the statistics at concrete relays\<close>

lemma two_connections_eq:
  "two_connections =
     \<lparr>options = \<lparr>timeout = 60000, heartbeatInterval = 30000, maxConnections = 1000\<rparr>,
      connections =
        [(''ws-1'', \<lparr>conn_id = ''ws-1'', ws = 7, ip = ''10.0.0.1'', createdAt = 0,
                     lastActivity = 50000, messages = 0\<rparr>),
         (''ws-2'', \<lparr>conn_id = ''ws-2'', ws = 8, ip = ''10.0.0.2'', createdAt = 10,
                     lastActivity = 10, messages = 0\<rparr>)]\<rparr>"
  by (simp add: two_connections_def WebSocketRelay_new_def handleConnection_def on_pong_def
        map_size_def map_get_def)




text \<open>
  Claim C5 at a registered connection: \<^verbatim>\<open>handleError\<close> writes the fault to the console and
  returns the relay as it was, so the identifier is still registered afterwards, whereas
  \<^verbatim>\<open>handleClose\<close> on the same relay removes it.
\<close>

theorem handleError_keeps_registration:
  "map_has ''ws-2'' (connections two_connections) \<and>
   handleError two_connections ''ws-2'' ''read ECONNRESET'' =
     (two_connections, [ConsoleError (ErrorOnConnection ''ws-2'' ''read ECONNRESET'')]) \<and>
   map_has ''ws-2'' (connections (fst (handleError two_connections ''ws-2'' ''read ECONNRESET''))) \<and>
   \<not> map_has ''ws-2'' (connections (fst (handleClose two_connections ''ws-2'')))"
  by (simp add: handleError_def handleClose_def map_has_def map_get_def map_delete_def
        two_connections_eq)

text \<open>
  Claim C10. On an empty registry \<^verbatim>\<open>getStats\<close> returns zero active connections, zero
  messages, the configured maximum as capacity, and \<open>-Infinity\<close> as the age of the oldest
  connection.
\<close>

theorem getStats_empty_registry:
  "connections r = [] \<Longrightarrow>
     getStats r now =
       \<lparr>activeConnections = 0, totalMessages = 0, oldestConnectionAge = NegInfinity,
        maxCapacity = maxConnections (options r)\<rparr>"
  by (simp add: getStats_def Math_min_def map_size_def)

theorem getStats_empty_registry_witness:
  "connections (WebSocketRelay_new None None (Some 5)) = [] \<and>
   getStats (WebSocketRelay_new None None (Some 5)) 1700000000000 =
     \<lparr>activeConnections = 0, totalMessages = 0, oldestConnectionAge = NegInfinity,
      maxCapacity = 5\<rparr>"
  using getStats_empty_registry [of "WebSocketRelay_new None None (Some 5)" 1700000000000]
  by (simp add: WebSocketRelay_new_def)

section \<open>Properties of the cookie relay\<close>

lemma parseCookieString_Str:
  "\<exists>parsed. parseCookieString toLowerCase (Str h) = Inr parsed"
  by (simp add: parseCookieString_def split: prod.splits)

lemma apply_overrides_name_val:
  "name (apply_overrides opts parsed) = name parsed"
  "val (apply_overrides opts parsed) = val parsed"
  by (simp_all add: apply_overrides_def Let_def)

lemma relayCookie_parsed:
  assumes "parseCookieString toLowerCase c = Inr parsed"
  shows "relayCookie toLowerCase m sid c =
     (if policy_admits (relay_options m) (name parsed)
      then (storeCookies m sid [(name parsed, val parsed)], [StoredCookie (name parsed) sid])
      else (m, []))"
  using assms
  by (auto simp: relayCookie_def policy_admits_def Let_def apply_overrides_name_val)

lemma map_get_map_set: "map_get k (map_set k v m) = Some v"
  by (simp add: map_get_def map_of_map_set)

lemma getCookies_storeCookies:
  "getCookies (storeCookies m sid cookies) sid = Object_assign (getCookies m sid) cookies"
  by (simp add: getCookies_def storeCookies_def Let_def map_get_map_set)

lemma stored_cookie_readable:
  "n \<noteq> ''__proto__'' \<Longrightarrow>
     map_get n (getCookies (storeCookies m sid [(n, v)]) sid) = Some v"
  by (simp add: getCookies_storeCookies Object_assign_def obj_set_def map_get_map_set)

text \<open>
  What the relay does with a cookie whose name is not \<^verbatim>\<open>__proto__\<close>: it is stored, and
  read back under its name, exactly when the policy admits the name; a cookie that the
  policy drops leaves the relay as it was.
\<close>

lemma relayCookie_ordinary_names:
  assumes "parseCookieString toLowerCase (Str h) = Inr parsed"
    and "name parsed \<noteq> ''__proto__''"
  shows "policy_admits (relay_options m) (name parsed) \<Longrightarrow>
           map_get (name parsed) (getCookies (fst (relayCookie toLowerCase m sid (Str h))) sid) =
             Some (val parsed)"
    and "\<not> policy_admits (relay_options m) (name parsed) \<Longrightarrow>
           relayCookie toLowerCase m sid (Str h) = (m, [])"
  using assms(2) by (simp_all add: relayCookie_parsed [OF assms(1)] stored_cookie_readable)

subsection \<open>Splitting and trimming\<close>

lemma split_on_fst: "fst (split_on c s) = takeWhile (\<lambda>x. x \<noteq> c) s"
  by (induction s) (auto split: prod.splits)

lemma split_on_append:
  "c \<notin> set a \<Longrightarrow> split_on c (a @ c # b) = (a, fst (split_on c b) # snd (split_on c b))"
  by (induction a) (auto split: prod.splits)

lemma takeWhile_skip:
  "c \<notin> set a \<Longrightarrow> takeWhile (\<lambda>x. x \<noteq> c) (a @ b) = a @ takeWhile (\<lambda>x. x \<noteq> c) b"
  by (induction a) auto

lemma take_whole_le:
  assumes "take (length w) l = w"
  shows "length w \<le> length l"
proof -
  from assms have "length (take (length w) l) = length w" by simp
  then show ?thesis by simp
qed

lemma strip_stops:
  "\<forall>w \<in> set seqs. c \<notin> set w \<Longrightarrow> strip seqs (a @ c # b) = strip seqs a @ c # b"
proof (induction seqs a rule: strip.induct)
  case (1 seqs)
  have "find (\<lambda>w. w \<noteq> [] \<and> take (length w) (c # b) = w) seqs = None"
  proof -
    have "\<not> (w \<noteq> [] \<and> take (length w) (c # b) = w)" if "w \<in> set seqs" for w
    proof (cases w)
      case Nil
      then show ?thesis by simp
    next
      case (Cons x xs)
      with 1 that have "x \<noteq> c" by auto
      with Cons show ?thesis by auto
    qed
    then show ?thesis by (simp add: find_None_iff)
  qed
  then show ?case by simp
next
  case (2 seqs x xs)
  define l where "l = x # xs"
  let ?P = "\<lambda>w. w \<noteq> [] \<and> take (length w) l = w"
  let ?Q = "\<lambda>w. w \<noteq> [] \<and> take (length w) (l @ c # b) = w"
  have same: "?Q w = ?P w" if "w \<in> set seqs" for w
  proof (cases "length w \<le> length l")
    case True
    then show ?thesis by simp
  next
    case False
    then have long: "length l < length w" by simp
    have "take (length w) l \<noteq> w"
    proof
      assume "take (length w) l = w"
      then have "length w \<le> length l" by (rule take_whole_le)
      with long show False by simp
    qed
    moreover have "take (length w) (l @ c # b) \<noteq> w"
    proof
      assume eq: "take (length w) (l @ c # b) = w"
      from long obtain k where k: "length w - length l = Suc k"
        by (metis Suc_diff_Suc)
      from long have "take (length w) (l @ c # b) = l @ c # take k b"
        by (simp add: k)
      with eq have "c \<in> set w" by (metis in_set_conv_decomp)
      with 2(2) that show False by auto
    qed
    ultimately show ?thesis by simp
  qed
  then have find_eq: "find ?Q seqs = find ?P seqs"
    by (intro find_cong) auto
  show ?case
  proof (cases "find ?P seqs")
    case None
    with find_eq show ?thesis by (simp add: l_def)
  next
    case (Some w)
    then have w: "w \<in> set seqs" "w \<noteq> []" "take (length w) l = w"
      by (auto simp: find_Some_iff)
    from w(3) have "length w \<le> length l" by (rule take_whole_le)
    then have le: "length w - 1 \<le> length xs" by (simp add: l_def)
    from Some have Some': "find (\<lambda>w. w \<noteq> [] \<and> take (length w) (x # xs) = w) seqs = Some w"
      by (simp add: l_def)
    have "strip seqs (drop (length w - 1) xs @ c # b) = strip seqs (drop (length w - 1) xs) @ c # b"
      using 2(1) [OF Some'] 2(2) by simp
    moreover from find_eq Some
    have "find (\<lambda>w. w \<noteq> [] \<and> take (length w) (x # xs @ c # b) = w) seqs = Some w"
      by (simp add: l_def)
    ultimately show ?thesis using Some' le by simp
  qed
qed

lemma set_strip: "set (strip seqs s) \<subseteq> set s"
proof (induction seqs s rule: strip.induct)
  case (1 seqs)
  show ?case by simp
next
  case (2 seqs c cs)
  show ?case
  proof (cases "find (\<lambda>w. w \<noteq> [] \<and> take (length w) (c # cs) = w) seqs")
    case None
    then show ?thesis by simp
  next
    case (Some w)
    have "set (strip seqs (drop (length w - 1) cs)) \<subseteq> set (drop (length w - 1) cs)"
      using Some by (rule 2)
    also have "\<dots> \<subseteq> set cs" by (rule set_drop_subset)
    finally show ?thesis using Some by auto
  qed
qed

lemma equals_sign_no_space:
  "\<forall>w \<in> set white_space. CHR ''='' \<notin> set w"
  "\<forall>w \<in> set (map rev white_space). CHR ''='' \<notin> set w"
  by (simp_all add: white_space_def)

lemma trimStart_stops: "trimStart (a @ CHR ''='' # b) = trimStart a @ CHR ''='' # b"
  unfolding trimStart_def using equals_sign_no_space(1) by (rule strip_stops)

lemma trimEnd_stops: "trimEnd (a @ CHR ''='' # b) = a @ CHR ''='' # trimEnd b"
proof -
  have "strip (map rev white_space) (rev b @ CHR ''='' # rev a) =
      strip (map rev white_space) (rev b) @ CHR ''='' # rev a"
    using equals_sign_no_space(2) by (rule strip_stops)
  then show ?thesis by (simp add: trimEnd_def)
qed

lemma trim_around:
  "trim (a @ CHR ''='' # mid @ CHR ''='' # b) = trimStart a @ CHR ''='' # mid @ CHR ''='' # trimEnd b"
proof -
  have "trimEnd ((trimStart a @ CHR ''='' # mid) @ CHR ''='' # b) =
      (trimStart a @ CHR ''='' # mid) @ CHR ''='' # trimEnd b"
    by (rule trimEnd_stops)
  then show ?thesis by (simp add: trim_def trimStart_stops)
qed

lemma parse_first_piece:
  assumes "split_on CHR '';'' s = (first, others)"
    and "split_on CHR ''='' (trim first) = (n, rest)"
  shows "parseCookieString toLowerCase (Str s) =
      Inr \<lparr>name = n, val = (case rest of [] \<Rightarrow> Undefined | v # _ \<Rightarrow> Str v),
           attributes = foldl (parse_attribute toLowerCase) [] (map trim others)\<rparr>"
  using assms by (simp add: parseCookieString_def)

subsection \<open>A value that holds an equals sign\<close>

text \<open>
  Claim C9. When the first part of a Set-Cookie string has the shape \<open>n=v=rest\<close>,
  \<^verbatim>\<open>parseCookieString\<close> returns \<open>v\<close>, the text between the first and the second \<open>=\<close>, as
  the value of the cookie, and that is the value \<^verbatim>\<open>relayCookie\<close> stores when the policy
  admits the name.
\<close>

theorem parseCookieString_cuts_value:
  "CHR ''='' \<notin> set n \<and> CHR '';'' \<notin> set n \<and> CHR ''='' \<notin> set v \<and> CHR '';'' \<notin> set v \<longrightarrow>
     (\<exists>parsed. parseCookieString toLowerCase (Str (n @ ''='' @ v @ ''='' @ rest)) = Inr parsed \<and>
        name parsed = trimStart n \<and>
        val parsed = Str v \<and>
        relayCookie toLowerCase m sid (Str (n @ ''='' @ v @ ''='' @ rest)) =
          (if policy_admits (relay_options m) (name parsed)
           then (storeCookies m sid [(name parsed, Str v)], [StoredCookie (name parsed) sid])
           else (m, [])))"
proof
  assume a: "CHR ''='' \<notin> set n \<and> CHR '';'' \<notin> set n \<and> CHR ''='' \<notin> set v \<and> CHR '';'' \<notin> set v"
  define s where "s = n @ ''='' @ v @ ''='' @ rest"
  define tail where "tail = takeWhile (\<lambda>x. x \<noteq> CHR '';'') rest"
  obtain others where first: "split_on CHR '';'' s = (n @ CHR ''='' # v @ CHR ''='' # tail, others)"
  proof -
    have "fst (split_on CHR '';'' s) = n @ CHR ''='' # v @ CHR ''='' # tail"
      using a by (simp add: split_on_fst s_def tail_def takeWhile_skip)
    then show ?thesis using that by (cases "split_on CHR '';'' s") simp
  qed
  define name' where "name' = trimStart n"
  define tail' where "tail' = trimEnd tail"
  have trimmed: "trim (n @ CHR ''='' # v @ CHR ''='' # tail) = name' @ CHR ''='' # v @ CHR ''='' # tail'"
    unfolding name'_def tail'_def by (rule trim_around)
  have "CHR ''='' \<notin> set name'"
    using a set_strip [of white_space n] by (auto simp: name'_def trimStart_def)
  then have "split_on CHR ''='' (name' @ CHR ''='' # v @ CHR ''='' # tail') =
      (name', fst (split_on CHR ''='' (v @ CHR ''='' # tail')) # snd (split_on CHR ''='' (v @ CHR ''='' # tail')))"
    by (rule split_on_append)
  moreover have "split_on CHR ''='' (v @ CHR ''='' # tail') =
      (v, fst (split_on CHR ''='' tail') # snd (split_on CHR ''='' tail'))"
    using a by (simp add: split_on_append)
  ultimately have pieces: "split_on CHR ''='' (trim (n @ CHR ''='' # v @ CHR ''='' # tail)) =
      (name', v # fst (split_on CHR ''='' tail') # snd (split_on CHR ''='' tail'))"
    by (simp add: trimmed)
  define parsed where "parsed =
    \<lparr>name = name', val = Str v,
     attributes = foldl (parse_attribute toLowerCase) [] (map trim others)\<rparr>"
  have p: "parseCookieString toLowerCase (Str s) = Inr parsed"
    using parse_first_piece [OF first pieces] by (simp add: parsed_def)
  have "relayCookie toLowerCase m sid (Str s) =
      (if policy_admits (relay_options m) (name parsed)
       then (storeCookies m sid [(name parsed, Str v)], [StoredCookie (name parsed) sid])
       else (m, []))"
    using relayCookie_parsed [OF p, of m sid] by (simp add: parsed_def)
  with p show "\<exists>parsed. parseCookieString toLowerCase (Str (n @ ''='' @ v @ ''='' @ rest)) = Inr parsed \<and>
        name parsed = trimStart n \<and>
        val parsed = Str v \<and>
        relayCookie toLowerCase m sid (Str (n @ ''='' @ v @ ''='' @ rest)) =
          (if policy_admits (relay_options m) (name parsed)
           then (storeCookies m sid [(name parsed, Str v)], [StoredCookie (name parsed) sid])
           else (m, []))"
    unfolding s_def by (intro exI [of _ parsed]) (simp add: parsed_def name'_def)
qed

lemmas cookie_eval =
  relayCookie_def parseCookieString_def parse_attribute_def trim_def trimStart_def trimEnd_def
  white_space_def obj_set_def toLowerCase_ascii_def lower_char_def apply_overrides_def
  storeCookies_def Object_assign_def getCookies_def map_get_def policy_admits_def Let_def

theorem parseCookieString_cuts_value_witness:
  "CHR ''='' \<notin> set ''token'' \<and> CHR '';'' \<notin> set ''token'' \<and>
   CHR ''='' \<notin> set ''abc'' \<and> CHR '';'' \<notin> set ''abc'' \<and>
   parseCookieString toLowerCase_ascii (Str ''token=abc=def'') =
     Inr \<lparr>name = ''token'', val = Str ''abc'', attributes = []\<rparr> \<and>
   getCookies (fst (relayCookie toLowerCase_ascii open_relay ''s1'' (Str ''token=abc=def''))) ''s1'' =
     [(''token'', Str ''abc'')]"
  using parseCookieString_cuts_value
      [of "''token''" "''abc''" toLowerCase_ascii "''def''" open_relay "''s1''"]
  by (simp add: cookie_eval open_relay_def)

subsection \<open>The relay at concrete headers\<close>

text \<open>
  Claim C2 at the header \<^verbatim>\<open>__proto__=x\<close> and a relay with empty allow-list and deny-list:
  the policy admits the name, and the relay reports the cookie as stored, but the jar of
  the session stays empty and \<^verbatim>\<open>getCookies\<close> reads no such cookie. The header \<^verbatim>\<open>sid=x\<close> at
  the same relay is stored and read back.
\<close>

theorem admitted_cookie_missing_from_jar:
  "policy_admits (relay_options open_relay) ''__proto__'' \<and>
   parseCookieString toLowerCase (Str ''__proto__=x'') =
     Inr \<lparr>name = ''__proto__'', val = Str ''x'', attributes = []\<rparr> \<and>
   relayCookie toLowerCase open_relay ''s1'' (Str ''__proto__=x'') =
     (open_relay\<lparr>cookieStore := [(''s1'', [])]\<rparr>, [StoredCookie ''__proto__'' ''s1'']) \<and>
   getCookies (fst (relayCookie toLowerCase open_relay ''s1'' (Str ''__proto__=x''))) ''s1'' = [] \<and>
   map_get ''__proto__''
     (getCookies (fst (relayCookie toLowerCase open_relay ''s1'' (Str ''__proto__=x''))) ''s1'') = None \<and>
   getCookies (fst (relayCookie toLowerCase open_relay ''s1'' (Str ''sid=x''))) ''s1'' =
     [(''sid'', Str ''x'')]"
  by (simp add: cookie_eval open_relay_def)

text \<open>
  Claim C4 at a relay with both overrides switched on and the header
  \<^verbatim>\<open>sid=abc; Secure; HttpOnly\<close>: the overrides change the attributes of the parsed cookie
  (and leave the parsed \<open>httponly\<close> flag set, writing \<open>httpOnly\<close> beside it), but the jar
  receives the bare value \<open>abc\<close> under \<open>sid\<close>, exactly what a relay without overrides
  stores.
\<close>

theorem overrides_never_reach_the_jar:
  "apply_overrides (relay_options stripping_relay)
     \<lparr>name = ''sid'', val = Str ''abc'',
      attributes = [(''secure'', AttrBool True), (''httponly'', AttrBool True)]\<rparr> =
     \<lparr>name = ''sid'', val = Str ''abc'',
      attributes = [(''secure'', AttrBool False), (''httponly'', AttrBool True),
                    (''httpOnly'', AttrBool False)]\<rparr> \<and>
   parseCookieString toLowerCase_ascii (Str ''sid=abc; Secure; HttpOnly'') =
     Inr \<lparr>name = ''sid'', val = Str ''abc'',
          attributes = [(''secure'', AttrBool True), (''httponly'', AttrBool True)]\<rparr> \<and>
   cookieStore (fst (relayCookie toLowerCase_ascii stripping_relay ''s1''
                       (Str ''sid=abc; Secure; HttpOnly''))) =
     [(''s1'', [(''sid'', Str ''abc'')])] \<and>
   cookieStore (fst (relayCookie toLowerCase_ascii stripping_relay ''s1''
                       (Str ''sid=abc; Secure; HttpOnly''))) =
     cookieStore (fst (relayCookie toLowerCase_ascii open_relay ''s1''
                         (Str ''sid=abc; Secure; HttpOnly'')))"
  by (simp add: cookie_eval open_relay_def stripping_relay_def)

section \<open>Properties of the URL resolver\<close>

lemma startsWith_append: "startsWith (p @ s) p"
  by (simp add: startsWith_def)

lemma startsWith_proxy_link: "startsWith (proxy_link proxyBaseUrl a) proxyBaseUrl"
  by (simp add: proxy_link_def startsWith_append)

lemma rewriteUrl_already_proxied:
  "startsWith u proxyBaseUrl \<Longrightarrow> rewriteUrl new_URL u proxyBaseUrl targetUrl = Inr u"
  by (simp add: rewriteUrl_def)

lemma rewriteUrl_result:
  "rewriteUrl new_URL u proxyBaseUrl targetUrl = Inr v \<Longrightarrow> v = u \<or> startsWith v proxyBaseUrl"
  by (auto simp: rewriteUrl_def startsWith_proxy_link split: if_splits option.splits)

lemma startsWith_Cons: "startsWith u [c] \<longleftrightarrow> (\<exists>t. u = c # t)"
  by (cases u) (auto simp: startsWith_def)

lemma rewriteUrl_fragment:
  "rewriteUrl new_URL (CHR ''#'' # t) proxyBaseUrl targetUrl = Inr (CHR ''#'' # t)"
  by (simp add: rewriteUrl_def startsWith_def)

text \<open>
  A URL that starts with \<open>#\<close>, or with \<^verbatim>\<open>javascript:\<close> spelled in lower case, is returned
  unchanged, for every proxy base, every target and every behaviour of the URL class.
\<close>

lemma rewriteUrl_skips_fragments_and_lower_case_javascript:
  assumes "startsWith u ''#'' \<or> startsWith u ''javascript:''"
  shows "rewriteUrl new_URL u proxyBaseUrl targetUrl = Inr u"
  using assms
proof
  assume "startsWith u ''#''"
  then obtain t where "u = CHR ''#'' # t" by (auto simp: startsWith_Cons)
  then show ?thesis by (simp add: rewriteUrl_fragment)
next
  assume "startsWith u ''javascript:''"
  then show ?thesis by (simp add: rewriteUrl_def)
qed

text \<open>
  Claim C3. Resolving the output of the resolver returns it unchanged: the resolver
  followed by the resolver is the resolver, on every input string (where the first call
  throws, so does the composition). The resolver returns a result whenever the URL class
  accepts the target and the input against the target.
\<close>

theorem rewriteUrl_idempotent:
  "(case rewriteUrl new_URL u proxyBaseUrl targetUrl of
      Inl e \<Rightarrow> Inl e
    | Inr v \<Rightarrow> rewriteUrl new_URL v proxyBaseUrl targetUrl) =
   rewriteUrl new_URL u proxyBaseUrl targetUrl \<and>
   (new_URL targetUrl None \<noteq> None \<and> new_URL u (Some targetUrl) \<noteq> None \<longrightarrow>
      (\<exists>v. rewriteUrl new_URL u proxyBaseUrl targetUrl = Inr v))"
proof
  show "(case rewriteUrl new_URL u proxyBaseUrl targetUrl of
      Inl e \<Rightarrow> Inl e
    | Inr v \<Rightarrow> rewriteUrl new_URL v proxyBaseUrl targetUrl) =
   rewriteUrl new_URL u proxyBaseUrl targetUrl"
  proof (cases "rewriteUrl new_URL u proxyBaseUrl targetUrl")
    case (Inl e)
    then show ?thesis by simp
  next
    case (Inr v)
    then have "v = u \<or> startsWith v proxyBaseUrl" by (rule rewriteUrl_result)
    then have "rewriteUrl new_URL v proxyBaseUrl targetUrl = Inr v"
      using Inr by (auto simp: rewriteUrl_already_proxied)
    with Inr show ?thesis by simp
  qed
  show "new_URL targetUrl None \<noteq> None \<and> new_URL u (Some targetUrl) \<noteq> None \<longrightarrow>
      (\<exists>v. rewriteUrl new_URL u proxyBaseUrl targetUrl = Inr v)"
    by (auto simp: rewriteUrl_def)
qed

lemmas url_eval =
  rewriteUrl_def startsWith_def proxy_link_def encodeURIComponent_def encode_byte_def
  unreserved_def hex_digit_def

theorem rewriteUrl_idempotent_witness:
  "example_URL ''https://api.example.com'' None \<noteq> None \<and>
   example_URL ''/login'' (Some ''https://api.example.com'') \<noteq> None \<and>
   example_URL ''img/logo.png'' (Some ''https://api.example.com'') \<noteq> None \<and>
   rewriteUrl example_URL ''img/logo.png'' ''http://localhost:3000'' ''https://api.example.com'' =
     Inr ''http://localhost:3000/proxy?url=https%3A%2F%2Fapi.example.com%2Fimg%2Flogo.png'' \<and>
   rewriteUrl example_URL ''/login'' ''http://localhost:3000'' ''https://api.example.com'' =
     Inr ''http://localhost:3000/proxy?url=https%3A%2F%2Fapi.example.com%2Flogin'' \<and>
   rewriteUrl example_URL ''http://localhost:3000/proxy?url=https%3A%2F%2Fapi.example.com%2Flogin''
       ''http://localhost:3000'' ''https://api.example.com'' =
     Inr ''http://localhost:3000/proxy?url=https%3A%2F%2Fapi.example.com%2Flogin''"
  using rewriteUrl_idempotent
      [of example_URL "''/login''" "''http://localhost:3000''" "''https://api.example.com''"]
    rewriteUrl_idempotent
      [of example_URL "''img/logo.png''" "''http://localhost:3000''" "''https://api.example.com''"]
  by (simp add: url_eval example_URL_def)

text \<open>
  Claim C7 at the URL \<^verbatim>\<open>JavaScript:alert(1)\<close>, a \<^verbatim>\<open>javascript:\<close> URI whose scheme is not
  spelled in lower case: the test for the prefix \<^verbatim>\<open>javascript:\<close> does not match, the URL
  is taken for a path relative to the page, and the resolver returns a proxy link (or
  throws, where the URL class does); whatever the URL class, the input does not come back
  unchanged.
\<close>

theorem rewriteUrl_rewrites_mixed_case_javascript:
  "rewriteUrl new_URL ''JavaScript:alert(1)'' ''http://localhost:3000'' ''https://api.example.com''
     \<noteq> Inr ''JavaScript:alert(1)'' \<and>
   rewriteUrl example_URL ''JavaScript:alert(1)'' ''http://localhost:3000'' ''https://api.example.com'' =
     Inr ''http://localhost:3000/proxy?url=javascript%3Aalert(1)'' \<and>
   rewriteUrl example_URL ''javascript:alert(1)'' ''http://localhost:3000'' ''https://api.example.com'' =
     Inr ''javascript:alert(1)''"
  by (simp add: url_eval example_URL_def split: option.splits)

section \<open>Properties of the proxy dispatcher\<close>

lemma api_get_rejected:
  "axios_get (TARGET_URL @ ''/'' @ path req @
              (if query req \<noteq> [] then ''?'' @ query_text (query req) else []))
     (forwarded_headers req) = Inl e \<Longrightarrow>
   api_get TARGET_URL axios_get query_text req ts = proxy_failure e ts"
  by (simp add: api_get_def Let_def)

lemma api_post_rejected:
  "axios_post (TARGET_URL @ ''/'' @ path req) (body req) (forwarded_headers req) = Inl e \<Longrightarrow>
   api_post TARGET_URL axios_post req ts = proxy_failure e ts"
  by (simp add: api_post_def Let_def)

text \<open>
  Claim C8. When the upstream call of the GET or of the POST handler rejects, the
  response to the client carries the status of the upstream's response when the error
  holds one (a status is a positive number), the status 500 when the error holds no
  response, and a JSON object with the fields \<open>error\<close>, \<open>message\<close> and \<open>timestamp\<close>.
\<close>

theorem upstream_failure_response:
  "(axios_get (TARGET_URL @ ''/'' @ path req @
               (if query req \<noteq> [] then ''?'' @ query_text (query req) else []))
      (forwarded_headers req) = Inl e \<longrightarrow>
      (let res = api_get TARGET_URL axios_get query_text req ts
       in (\<forall>r. response e = Some r \<and> status r \<noteq> 0 \<longrightarrow> res_status res = status r) \<and>
          (response e = None \<longrightarrow> res_status res = 500) \<and>
          res_json res = JsonObject [(''error'', ''Proxy request failed''),
                                     (''message'', message e), (''timestamp'', ts)])) \<and>
   (axios_post (TARGET_URL @ ''/'' @ path req) (body req) (forwarded_headers req) = Inl e \<longrightarrow>
      (let res = api_post TARGET_URL axios_post req ts
       in (\<forall>r. response e = Some r \<and> status r \<noteq> 0 \<longrightarrow> res_status res = status r) \<and>
          (response e = None \<longrightarrow> res_status res = 500) \<and>
          res_json res = JsonObject [(''error'', ''Proxy request failed''),
                                     (''message'', message e), (''timestamp'', ts)]))"
  by (auto simp: api_get_rejected api_post_rejected proxy_failure_def Let_def)

theorem upstream_failure_response_witness:
  "api_get ''https://api.example.com'' (\<lambda>_ _. Inl not_found) (\<lambda>_. []) users_request
       ''2024-01-01T00:00:00.000Z'' =
     \<lparr>res_status = 404,
      res_json = JsonObject [(''error'', ''Proxy request failed''),
                             (''message'', ''Request failed with status code 404''),
                             (''timestamp'', ''2024-01-01T00:00:00.000Z'')]\<rparr> \<and>
   api_post ''https://api.example.com'' (\<lambda>_ _ _. Inl unreachable) users_request
       ''2024-01-01T00:00:00.000Z'' =
     \<lparr>res_status = 500,
      res_json = JsonObject [(''error'', ''Proxy request failed''),
                             (''message'', ''connect ECONNREFUSED''),
                             (''timestamp'', ''2024-01-01T00:00:00.000Z'')]\<rparr>"
  using upstream_failure_response
      [of "\<lambda>_ _. Inl not_found" "''https://api.example.com''" users_request "\<lambda>_. []"
          not_found "''2024-01-01T00:00:00.000Z''" "\<lambda>_ _ _. Inl not_found"]
    upstream_failure_response
      [of "\<lambda>_ _. Inl unreachable" "''https://api.example.com''" users_request "\<lambda>_. []"
          unreachable "''2024-01-01T00:00:00.000Z''" "\<lambda>_ _ _. Inl unreachable"]
  by (simp add: api_get_def api_post_def proxy_failure_def not_found_def unreachable_def
        users_request_def Let_def)

end
